theory Spec2Isabelle
  imports Main
begin

section \<open>Strings\<close>

text \<open>
  A Go string is a sequence of bytes, modelled as a \<open>char list\<close>.  The separators the
  program rewrites are the single bytes slash (0x2F) and backslash (0x5C).
\<close>

type_synonym bytes = string

abbreviation slash :: char where
  "slash \<equiv> CHR ''/''"

abbreviation bslash :: char where
  "bslash \<equiv> CHR 0x5C"

text \<open>
  \<open>strings.ToLower\<close>: the bytes \<open>A\<close>..\<open>Z\<close> (65..90) are moved to \<open>a\<close>..\<open>z\<close>; every
  other byte is kept.  This is Go's result on every ASCII string; bytes above 0x7F, which
  Go decodes as UTF-8 runes, are left as they are here.
\<close>

definition lower_byte :: "char \<Rightarrow> char" where
  "lower_byte c =
     (let n = (of_char c :: nat) in if 65 \<le> n \<and> n \<le> 90 then char_of (n + 32) else c)"

definition ToLower :: "string \<Rightarrow> string" where
  "ToLower s = map lower_byte s"

text \<open>\<open>strings.ReplaceAll s old new\<close> for one-byte \<open>old\<close> and \<open>new\<close>, the only use made of it.\<close>

definition ReplaceAll :: "string \<Rightarrow> char \<Rightarrow> char \<Rightarrow> string" where
  "ReplaceAll s old new = map (\<lambda>c. if c = old then new else c) s"

text \<open>\<open>strings.HasPrefix s [c]\<close> for a one-byte prefix.\<close>

definition HasPrefix :: "string \<Rightarrow> char \<Rightarrow> bool" where
  "HasPrefix s c = (case s of [] \<Rightarrow> False | d # _ \<Rightarrow> d = c)"

text \<open>
  \<open>strings.Split s sep\<close> for a one-byte separator: the pieces between the separators, in
  order; \<open>n\<close> separators give \<open>n + 1\<close> pieces, some of them possibly empty.
\<close>

fun Split :: "string \<Rightarrow> char \<Rightarrow> string list" where
  "Split [] sep = [[]]"
| "Split (c # cs) sep =
     (if c = sep then [] # Split cs sep
      else (case Split cs sep of
              [] \<Rightarrow> [[c]]
            | piece # pieces \<Rightarrow> (c # piece) # pieces))"

section \<open>Path conversion\<close>

text \<open>
  \<open>normalize\<close> (src/main.go:235) replaces every backslash with a slash.  The name
  \<open>normalize\<close> is taken in HOL, hence the suffix.
\<close>

definition normalize_path :: "string \<Rightarrow> string" where
  "normalize_path filePath = ReplaceAll filePath bslash slash"

text \<open>
  \<open>denormalize\<close> (src/main.go:242) replaces every slash with a backslash and, when the
  result starts with a backslash, drops that one byte (a slice from the length of the
  one-byte prefix).
\<close>

definition denormalize :: "string \<Rightarrow> string" where
  "denormalize filePath =
     (let filePath = ReplaceAll filePath slash bslash in
      if HasPrefix filePath bslash then drop 1 filePath else filePath)"

section \<open>Errors\<close>

text \<open>
  The two sentinels of the program, errors that come from outside the program (the archive
  library, the operating system), and the wrappers of \<open>github.com/pkg/errors\<close>.  An outside
  error is never one of the two sentinels: they are package-level values of \<open>main\<close>,
  compared by identity.
\<close>

datatype error =
    ErrNotFound
  | ErrFileRead
  | Foreign string
  | Wrap error string
  | Wrapf error string "string list"
  | WithStack error

text \<open>\<open>errors.Cause\<close>: strip every wrapper.\<close>

fun Cause :: "error \<Rightarrow> error" where
  "Cause (Wrap e msg) = Cause e"
| "Cause (Wrapf e fmt args) = Cause e"
| "Cause (WithStack e) = Cause e"
| "Cause e = e"

text \<open>What a Go function of this program can do: return a value, return an error, or panic.\<close>

datatype 'a result = Ok 'a | Err error | Panic string

section \<open>The archive collaborator\<close>

text \<open>
  An opened archive (\<open>mpq.MPQ\<close>, \<open>*d2mpq.MPQ\<close>) is used through its field \<open>FileName\<close> and
  its methods \<open>FileExists\<close>, \<open>ReadFile\<close> and \<open>GetFileList\<close>; the library is not part of
  the repository, so an archive is these four, as given.  \<open>ReadFile\<close> returns bytes,
  returns an error carrying a message, or panics with a (non-nil) value whose
  \<open>fmt.Sprint\<close> rendering is recorded.  \<open>FileExists\<close> and \<open>GetFileList\<close> are taken to
  return, and an archive to answer the same at every call: it is not changed after it
  is opened.
\<close>

datatype read_result = ReadOk bytes | ReadErr string | ReadPanic string

record archive =
  FileName :: string
  FileExists :: "string \<Rightarrow> bool"
  ReadFile :: "string \<Rightarrow> read_result"
  GetFileList :: "string + string list"

section \<open>Effects\<close>

text \<open>
  Everything the program does to the outside is appended to a trace: calls of the archive
  methods (with the archive's \<open>FileName\<close> and the key passed), calls of the operating
  system, and the lines printed to standard output and to the log.
\<close>

datatype event =
    CallLoad string
  | CallFileExists string string
  | CallReadFile string string
  | CallGetFileList string
  | IoReadFile string
  | OsMkdirAll string
  | IoWriteFile string bytes
  | PrintGettingListfile
  | PrintGettingListfileAt string
  | PrintGettingEmbedded
  | PrintGettingBundled
  | PrintExtracting string
  | PrintCreating string
  | LogNotFound string
  | LogReadError string error

type_synonym trace = "event list"

text \<open>
  The operating system and the path libraries.  Whether a directory can be created, a file
  written or read may depend on everything done so far, so these take the trace.
  \<open>Join\<close>, \<open>Dir\<close> (\<open>path/filepath\<close>), \<open>pathutil_FileName\<close> (\<open>pathutil.FileName\<close>) and
  \<open>Scan\<close> (the lines a \<open>bufio.Scanner\<close> yields from a buffer) are library functions.
  \<open>None\<close> is success, \<open>Some msg\<close> or \<open>Inl msg\<close> a failure.
\<close>

record sys =
  Load :: "trace \<Rightarrow> string \<Rightarrow> string + archive"
  ioutil_ReadFile :: "trace \<Rightarrow> string \<Rightarrow> string + bytes"
  MkdirAll :: "trace \<Rightarrow> string \<Rightarrow> string option"
  WriteFile :: "trace \<Rightarrow> string \<Rightarrow> bytes \<Rightarrow> string option"
  Join :: "string list \<Rightarrow> string"
  Dir :: "string \<Rightarrow> string"
  pathutil_FileName :: "string \<Rightarrow> string"
  Scan :: "bytes \<Rightarrow> string list"

section \<open>Reading from the archive chain\<close>

text \<open>
  \<open>archiveReadFile\<close> (src/main.go:220): the deferred \<open>recover\<close> turns a panic of
  \<open>archive.ReadFile\<close> into \<open>errors.Wrap(ErrFileRead, fmt.Sprint(e))\<close>; an error the method
  returns is passed on under \<open>errors.WithStack\<close>.
\<close>

definition archiveReadFile :: "archive \<Rightarrow> string \<Rightarrow> trace \<Rightarrow> (error + bytes) \<times> trace" where
  "archiveReadFile a filePath tr =
     (let tr = tr @ [CallReadFile (FileName a) filePath] in
      case ReadFile a filePath of
        ReadPanic e \<Rightarrow> (Inl (Wrap ErrFileRead e), tr)
      | ReadErr msg \<Rightarrow> (Inl (WithStack (Foreign msg)), tr)
      | ReadOk data \<Rightarrow> (Inr data, tr))"

text \<open>The loop of \<open>readFile\<close> over the archives (src/main.go:206-216).\<close>

fun readFile_search :: "archive list \<Rightarrow> string \<Rightarrow> trace \<Rightarrow> (bytes \<times> string) result \<times> trace" where
  "readFile_search [] filePath tr =
     (Err (Wrapf ErrNotFound ''file not found %q'' [filePath]), tr)"
| "readFile_search (a # archives) filePath tr =
     (let tr = tr @ [CallFileExists (FileName a) filePath] in
      if \<not> FileExists a filePath then readFile_search archives filePath tr
      else (case archiveReadFile a filePath tr of
              (Inl err, tr) \<Rightarrow> (Err (WithStack err), tr)
            | (Inr data, tr) \<Rightarrow> (Ok (data, FileName a), tr)))"

text \<open>
  \<open>readFile\<close> (src/main.go:198, src/cmd/MpqViewer/main.go:149).  \<open>filePath[0]\<close> on the
  empty string is an index out of range: a run-time panic, outside \<open>archiveReadFile\<close>'s
  \<open>recover\<close>.
\<close>

definition readFile :: "archive list \<Rightarrow> string \<Rightarrow> trace \<Rightarrow> (bytes \<times> string) result \<times> trace" where
  "readFile archives filePath tr =
     (let filePath = ToLower filePath;
          filePath = ReplaceAll filePath slash bslash
      in case filePath of
           [] \<Rightarrow> (Panic ''runtime error: index out of range [0] with length 0'', tr)
         | c # rest \<Rightarrow>
             readFile_search archives (if c = bslash then rest else filePath) tr)"

section \<open>Extraction\<close>

text \<open>
  \<open>extractFile\<close> (src/main.go:468; the variants at src/main.go:177 and
  src/cmd/MpqViewer/main.go:130 are the same text without the \<open>lower\<close> branch, that is,
  \<open>lower = False\<close>).
\<close>

definition extractFile :: "sys \<Rightarrow> archive list \<Rightarrow> string \<Rightarrow> bool \<Rightarrow> trace \<Rightarrow> unit result \<times> trace" where
  "extractFile os archives filePath lower tr =
     (let tr = tr @ [PrintExtracting filePath] in
      case readFile archives filePath tr of
        (Panic e, tr) \<Rightarrow> (Panic e, tr)
      | (Err err, tr) \<Rightarrow> (Err (WithStack err), tr)
      | (Ok (data, archiveName), tr) \<Rightarrow>
          (let archiveDir = pathutil_FileName os archiveName;
               dstPath = normalize_path (Join os [''_dump_'', archiveDir, filePath]);
               dstPath = (if lower then ToLower dstPath else dstPath);
               tr = tr @ [PrintCreating dstPath];
               dir = Dir os dstPath
           in case MkdirAll os tr dir of
                Some msg \<Rightarrow> (Err (WithStack (Foreign msg)), tr @ [OsMkdirAll dir])
              | None \<Rightarrow>
                  (let tr = tr @ [OsMkdirAll dir] in
                   case WriteFile os tr dstPath data of
                     Some msg \<Rightarrow> (Err (WithStack (Foreign msg)), tr @ [IoWriteFile dstPath data])
                   | None \<Rightarrow> (Ok (), tr @ [IoWriteFile dstPath data]))))"

text \<open>
  \<open>extractAllFiles\<close> (src/main.go:449, 158; src/cmd/MpqViewer/main.go:113): the two
  sentinel causes are logged and the loop goes on; any other error leaves the loop.
\<close>

fun extractAllFiles :: "sys \<Rightarrow> archive list \<Rightarrow> string list \<Rightarrow> bool \<Rightarrow> trace \<Rightarrow> unit result \<times> trace" where
  "extractAllFiles os archives [] lower tr = (Ok (), tr)"
| "extractAllFiles os archives (filePath # filePaths) lower tr =
     (case extractFile os archives filePath lower tr of
        (Panic e, tr) \<Rightarrow> (Panic e, tr)
      | (Ok u, tr) \<Rightarrow> extractAllFiles os archives filePaths lower tr
      | (Err err, tr) \<Rightarrow>
          (case Cause err of
             ErrNotFound \<Rightarrow>
               extractAllFiles os archives filePaths lower (tr @ [LogNotFound filePath])
           | ErrFileRead \<Rightarrow>
               extractAllFiles os archives filePaths lower (tr @ [LogReadError filePath err])
           | _ \<Rightarrow> (Err (WithStack err), tr)))"

section \<open>Finding the paths to extract\<close>

text \<open>
  The inner loop of the listfile filters (src/main.go:132-137, 404-409, 423-428): the
  archives are asked in order, up to the first that has the path.
\<close>

fun anyFileExists :: "archive list \<Rightarrow> string \<Rightarrow> trace \<Rightarrow> bool \<times> trace" where
  "anyFileExists [] filePath tr = (False, tr)"
| "anyFileExists (a # archives) filePath tr =
     (let tr = tr @ [CallFileExists (FileName a) filePath] in
      if FileExists a filePath then (True, tr) else anyFileExists archives filePath tr)"

text \<open>The loop over the scanned lines (src/main.go:129-138, 401-410, 420-429).\<close>

fun scanListfile :: "archive list \<Rightarrow> string list \<Rightarrow> string list \<Rightarrow> trace \<Rightarrow> string list \<times> trace" where
  "scanListfile archives [] filePaths tr = (filePaths, tr)"
| "scanListfile archives (line # lines) filePaths tr =
     (let filePath = denormalize line in
      case anyFileExists archives filePath tr of
        (True, tr) \<Rightarrow> scanListfile archives lines (filePaths @ [filePath]) tr
      | (False, tr) \<Rightarrow> scanListfile archives lines filePaths tr)"

text \<open>\<open>getFilePathsFromListfile\<close> (src/main.go:122, 394).\<close>

definition getFilePathsFromListfile ::
    "sys \<Rightarrow> archive list \<Rightarrow> string \<Rightarrow> trace \<Rightarrow> (error + string list) \<times> trace" where
  "getFilePathsFromListfile os archives listfilePath tr =
     (case ioutil_ReadFile os tr listfilePath of
        Inl msg \<Rightarrow> (Inl (WithStack (Foreign msg)), tr @ [IoReadFile listfilePath])
      | Inr buf \<Rightarrow>
          (case scanListfile archives (Scan os buf) [] (tr @ [IoReadFile listfilePath]) of
             (filePaths, tr) \<Rightarrow> (Inr filePaths, tr)))"

text \<open>\<open>getFilePathsFromBundledListfile\<close> (src/main.go:417).\<close>

definition getFilePathsFromBundledListfile ::
    "sys \<Rightarrow> archive list \<Rightarrow> string \<Rightarrow> trace \<Rightarrow> (error + string list) \<times> trace" where
  "getFilePathsFromBundledListfile os archives data tr =
     (case scanListfile archives (Scan os data) [] tr of
        (filePaths, tr) \<Rightarrow> (Inr filePaths, tr))"

text \<open>The loop of \<open>getFilePathsFromEmbeddedListfile\<close> (src/main.go:146-152, 437-443).\<close>

fun collectFileLists :: "archive list \<Rightarrow> string list \<Rightarrow> trace \<Rightarrow> (error + string list) \<times> trace" where
  "collectFileLists [] filePaths tr = (Inr filePaths, tr)"
| "collectFileLists (a # archives) filePaths tr =
     (let tr = tr @ [CallGetFileList (FileName a)] in
      case GetFileList a of
        Inl msg \<Rightarrow> (Inl (WithStack (Foreign msg)), tr)
      | Inr files \<Rightarrow> collectFileLists archives (filePaths @ files) tr)"

text \<open>\<open>getFilePathsFromEmbeddedListfile\<close> (src/main.go:144, 435).\<close>

definition getFilePathsFromEmbeddedListfile ::
    "archive list \<Rightarrow> trace \<Rightarrow> (error + string list) \<times> trace" where
  "getFilePathsFromEmbeddedListfile archives tr = collectFileLists archives [] tr"

section \<open>The two programs of src/main.go\<close>

text \<open>The parsed command line: the flags and the positional arguments.\<close>

record flags =
  flag_a :: bool
  flag_embedded :: bool
  flag_files :: string
  flag_l :: string
  flag_lower :: bool
  flag_mpq_dir :: string
  flag_args :: "string list"

text \<open>How a run ends: normally, by \<open>log.Fatalf\<close>, or by an uncaught panic.\<close>

datatype fatal = FatalError error | FatalNoFiles

datatype exit = Exit0 | Fatal fatal | Crash string

definition mpqNames :: "string list" where
  "mpqNames = [''d2char.mpq'', ''d2video.mpq'', ''d2data.mpq'', ''d2xmusic.mpq'', ''d2exp.mpq'',
     ''d2xtalk.mpq'', ''d2music.mpq'', ''d2xvideo.mpq'', ''d2sfx.mpq'', ''d2speech.mpq'']"

text \<open>"Get MPQ paths" (src/main.go:61-68, 323-330).\<close>

definition getMpqPaths :: "sys \<Rightarrow> flags \<Rightarrow> string list" where
  "getMpqPaths os fl =
     (let mpqPaths = flag_args fl in
      if length mpqPaths = 0
      then mpqPaths @ map (\<lambda>mpqName. Join os [flag_mpq_dir fl, mpqName]) mpqNames
      else mpqPaths)"

text \<open>
  "Open MPQ archives" (src/main.go:74-81, 336-343): the first failure ends the loop with
  the error under \<open>errors.WithStack\<close>, which \<open>main\<close> hands to \<open>log.Fatalf\<close>.
\<close>

fun openArchives :: "sys \<Rightarrow> string list \<Rightarrow> archive list \<Rightarrow> trace \<Rightarrow> (error + archive list) \<times> trace" where
  "openArchives os [] archives tr = (Inr archives, tr)"
| "openArchives os (mpqPath # mpqPaths) archives tr =
     (case Load os tr mpqPath of
        Inl msg \<Rightarrow> (Inl (WithStack (Foreign msg)), tr @ [CallLoad mpqPath])
      | Inr a \<Rightarrow> openArchives os mpqPaths (archives @ [a]) (tr @ [CallLoad mpqPath]))"

text \<open>
  "Get file paths to extract" of the second program (src/main.go:346-379), which has the
  \<open>-embedded\<close> flag and the bundled listfile.  The constant \<open>rawListfile\<close> is not in the
  sources and is a parameter.
\<close>

definition getFilePaths_bundled ::
    "sys \<Rightarrow> string \<Rightarrow> flags \<Rightarrow> archive list \<Rightarrow> trace \<Rightarrow> (fatal + string list) \<times> trace" where
  "getFilePaths_bundled os rawListfile fl archives tr =
     (let filePaths = (if length (flag_files fl) > 0 then Split (flag_files fl) (CHR '','') else [])
      in if length filePaths = 0 then
           if \<not> flag_a fl then (Inl FatalNoFiles, tr)
           else if flag_embedded fl then
             (case getFilePathsFromEmbeddedListfile archives (tr @ [PrintGettingEmbedded]) of
                (Inl err, tr) \<Rightarrow> (Inl (FatalError err), tr)
              | (Inr files, tr) \<Rightarrow> (Inr files, tr))
           else if length (flag_l fl) > 0 then
             (case getFilePathsFromListfile os archives (flag_l fl)
                     (tr @ [PrintGettingListfileAt (flag_l fl)]) of
                (Inl err, tr) \<Rightarrow> (Inl (FatalError err), tr)
              | (Inr files, tr) \<Rightarrow> (Inr files, tr))
           else
             (case getFilePathsFromBundledListfile os archives rawListfile
                     (tr @ [PrintGettingBundled]) of
                (Inl err, tr) \<Rightarrow> (Inl (FatalError err), tr)
              | (Inr files, tr) \<Rightarrow> (Inr files, tr))
         else (Inr filePaths, tr))"

text \<open>"Get file paths to extract" of the first program (src/main.go:84-107).\<close>

definition getFilePaths_listfile ::
    "sys \<Rightarrow> flags \<Rightarrow> archive list \<Rightarrow> trace \<Rightarrow> (fatal + string list) \<times> trace" where
  "getFilePaths_listfile os fl archives tr =
     (let filePaths = (if length (flag_files fl) > 0 then Split (flag_files fl) (CHR '','') else [])
      in if length filePaths = 0 then
           if \<not> flag_a fl then (Inl FatalNoFiles, tr)
           else if length (flag_l fl) > 0 then
             (case getFilePathsFromListfile os archives (flag_l fl)
                     (tr @ [PrintGettingListfile]) of
                (Inl err, tr) \<Rightarrow> (Inl (FatalError err), tr)
              | (Inr files, tr) \<Rightarrow> (Inr files, tr))
           else
             (case getFilePathsFromEmbeddedListfile archives (tr @ [PrintGettingEmbedded]) of
                (Inl err, tr) \<Rightarrow> (Inl (FatalError err), tr)
              | (Inr files, tr) \<Rightarrow> (Inr files, tr))
         else (Inr filePaths, tr))"

text \<open>
  From "De-normalize file paths" to the end of \<open>main\<close> (src/main.go:109-117, 381-389).
\<close>

definition extractPaths :: "sys \<Rightarrow> archive list \<Rightarrow> string list \<Rightarrow> bool \<Rightarrow> trace \<Rightarrow> exit \<times> trace" where
  "extractPaths os archives filePaths lower tr =
     (let filePaths = map denormalize filePaths in
      case extractAllFiles os archives filePaths lower tr of
        (Err err, tr) \<Rightarrow> (Fatal (FatalError err), tr)
      | (Panic e, tr) \<Rightarrow> (Crash e, tr)
      | (Ok u, tr) \<Rightarrow> (Exit0, tr))"

text \<open>\<open>main\<close> of the second program (src/main.go:298), after flag parsing.\<close>

definition main_bundled :: "sys \<Rightarrow> string \<Rightarrow> flags \<Rightarrow> trace \<Rightarrow> exit \<times> trace" where
  "main_bundled os rawListfile fl tr =
     (case openArchives os (getMpqPaths os fl) [] tr of
        (Inl err, tr) \<Rightarrow> (Fatal (FatalError err), tr)
      | (Inr archives, tr) \<Rightarrow>
          (case getFilePaths_bundled os rawListfile fl archives tr of
             (Inl f, tr) \<Rightarrow> (Fatal f, tr)
           | (Inr filePaths, tr) \<Rightarrow> extractPaths os archives filePaths (flag_lower fl) tr))"

text \<open>
  \<open>main\<close> of the first program (src/main.go:42), after flag parsing; it has no \<open>-lower\<close>
  and no \<open>-embedded\<close> flag, and those two fields of the command line are not read.
\<close>

definition main_listfile :: "sys \<Rightarrow> flags \<Rightarrow> trace \<Rightarrow> exit \<times> trace" where
  "main_listfile os fl tr =
     (case openArchives os (getMpqPaths os fl) [] tr of
        (Inl err, tr) \<Rightarrow> (Fatal (FatalError err), tr)
      | (Inr archives, tr) \<Rightarrow>
          (case getFilePaths_listfile os fl archives tr of
             (Inl f, tr) \<Rightarrow> (Fatal f, tr)
           | (Inr filePaths, tr) \<Rightarrow> extractPaths os archives filePaths False tr))"

section \<open>A sample environment\<close>

text \<open>
  Concrete archives and a concrete operating system, on which the theorems below are
  instantiated.  An archive built by \<open>sample_archive\<close> holds the listed files;
  \<open>broken_archive\<close> reports the listed keys and panics on every read.
\<close>

definition sample_archive :: "string \<Rightarrow> (string \<times> bytes) list \<Rightarrow> archive" where
  "sample_archive name files =
     \<lparr>FileName = name,
      FileExists = (\<lambda>k. map_of files k \<noteq> None),
      ReadFile = (\<lambda>k. case map_of files k of Some d \<Rightarrow> ReadOk d | None \<Rightarrow> ReadErr ''no such file''),
      GetFileList = Inr (map fst files)\<rparr>"

definition broken_archive :: "string \<Rightarrow> string list \<Rightarrow> archive" where
  "broken_archive name keys =
     \<lparr>FileName = name,
      FileExists = (\<lambda>k. k \<in> set keys),
      ReadFile = (\<lambda>k. ReadPanic ''unexpected EOF''),
      GetFileList = Inr keys\<rparr>"

fun join_slash :: "string list \<Rightarrow> string" where
  "join_slash [] = []"
| "join_slash [x] = x"
| "join_slash (x # y # ys) = x @ [slash] @ join_slash (y # ys)"

definition dir_of :: "string \<Rightarrow> string" where
  "dir_of p = rev (drop 1 (dropWhile (\<lambda>c. c \<noteq> slash) (rev p)))"

definition sample_lines :: "bytes \<Rightarrow> string list" where
  "sample_lines buf =
     (let pieces = Split buf (CHR 0x0A) in if last pieces = [] then butlast pieces else pieces)"

definition sample_sys :: sys where
  "sample_sys =
     \<lparr>Load = (\<lambda>tr p. Inl ''no such archive''),
      ioutil_ReadFile = (\<lambda>tr p. Inl ''no such file''),
      MkdirAll = (\<lambda>tr d. None),
      WriteFile = (\<lambda>tr p d. None),
      Join = join_slash,
      Dir = dir_of,
      pathutil_FileName = takeWhile (\<lambda>c. c \<noteq> CHR ''.''),
      Scan = sample_lines\<rparr>"

text \<open>
  Two archives that both hold \<open>data\<close>, backslash, \<open>x.txt\<close>, with contents \<open>1\<close> and \<open>2\<close>.
\<close>

definition data_A :: archive where
  "data_A = sample_archive ''A.mpq'' [(''data'' @ [bslash] @ ''x.txt'', ''1'')]"

definition data_B :: archive where
  "data_B = sample_archive ''B.mpq'' [(''data'' @ [bslash] @ ''x.txt'', ''2'')]"

text \<open>The same system with a destination that cannot be created, or cannot be written.\<close>

definition readonly_sys :: sys where
  "readonly_sys = sample_sys\<lparr>MkdirAll := (\<lambda>tr d. Some ''permission denied'')\<rparr>"

definition full_sys :: sys where
  "full_sys = sample_sys\<lparr>WriteFile := (\<lambda>tr p d. Some ''no space left on device'')\<rparr>"

text \<open>Two archives: one that reports \<open>x.txt\<close> and panics on reading it, one that holds \<open>y.txt\<close>.\<close>

definition broken_A :: archive where
  "broken_A = broken_archive ''A.mpq'' [''x.txt'']"

definition good_B :: archive where
  "good_B = sample_archive ''B.mpq'' [(''y.txt'', ''2'')]"

text \<open>
  The same system where \<open>listfile.txt\<close> can be read and holds the two lines \<open>/y.txt\<close>
  and \<open>z.txt\<close>, and where \<open>B.mpq\<close> can be opened.
\<close>

definition listfile_sys :: sys where
  "listfile_sys = sample_sys
     \<lparr>Load := (\<lambda>tr p. if p = ''B.mpq'' then Inr good_B else Inl ''no such archive''),
      ioutil_ReadFile := (\<lambda>tr p. if p = ''listfile.txt''
                                 then Inr (''/y.txt'' @ [CHR 0x0A] @ ''z.txt'' @ [CHR 0x0A])
                                 else Inl ''no such file'')\<rparr>"

text \<open>
  A command line that names two files with \<open>-files\<close> and also gives \<open>-a\<close>, \<open>-embedded\<close>
  and \<open>-l listfile.txt\<close>.
\<close>

definition sample_flags :: flags where
  "sample_flags =
     \<lparr>flag_a = True, flag_embedded = True, flag_files = ''/y.txt,z.txt'',
      flag_l = ''listfile.txt'', flag_lower = False, flag_mpq_dir = ''.'',
      flag_args = [''B.mpq'']\<rparr>"

section \<open>Observing a trace\<close>

text \<open>The lookup keys passed to \<open>FileExists\<close> and \<open>ReadFile\<close> in a trace, in order.\<close>

fun lookup_keys :: "trace \<Rightarrow> string list" where
  "lookup_keys [] = []"
| "lookup_keys (CallFileExists name k # tr) = k # lookup_keys tr"
| "lookup_keys (CallReadFile name k # tr) = k # lookup_keys tr"
| "lookup_keys (ev # tr) = lookup_keys tr"

text \<open>
  What claim C6 asks of a key: native form (no forward separator, no leading
  separator) and lower case.
\<close>

definition native_lower :: "string \<Rightarrow> bool" where
  "native_lower k \<longleftrightarrow> slash \<notin> set k \<and> \<not> HasPrefix k bslash \<and> ToLower k = k"

section \<open>Path conversion: the round trip\<close>

lemma ReplaceAll_inverse:
  "new \<notin> set s \<Longrightarrow> ReplaceAll (ReplaceAll s old new) new old = s"
  by (induction s) (auto simp: ReplaceAll_def)

lemma ReplaceAll_drop: "ReplaceAll (drop n s) old new = drop n (ReplaceAll s old new)"
  by (simp add: ReplaceAll_def drop_map)

lemma HasPrefix_ReplaceAll:
  "bslash \<notin> set p \<Longrightarrow> HasPrefix (ReplaceAll p slash bslash) bslash = HasPrefix p slash"
  by (cases p) (auto simp: HasPrefix_def ReplaceAll_def)

text \<open>
  Claim C4.  For a canonical path \<open>p\<close> (forward-separated: it holds no backslash),
  converting to native form with \<open>denormalize\<close> and back with \<open>normalize\<close> gives \<open>p\<close>
  without its leading separator, when it has one, and \<open>p\<close> itself otherwise.  Both
  conversions are total functions with no failing branch.
\<close>

theorem normalize_denormalize_roundtrip:
  assumes "bslash \<notin> set p"
  shows "normalize_path (denormalize p) = (if HasPrefix p slash then drop 1 p else p)"
  using assms
  by (simp add: normalize_path_def denormalize_def Let_def ReplaceAll_drop ReplaceAll_inverse
      HasPrefix_ReplaceAll del: One_nat_def)

theorem normalize_denormalize_roundtrip_witness:
  "bslash \<notin> set ''/data/global/x.txt'' \<and>
   normalize_path (denormalize ''/data/global/x.txt'') = ''data/global/x.txt''"
  using normalize_denormalize_roundtrip [of "''/data/global/x.txt''"]
  by (simp add: HasPrefix_def)

section \<open>Resolution in the archive chain\<close>

lemma readFile_search_skip:
  "\<forall>b\<in>set pre. \<not> FileExists b k \<Longrightarrow>
   readFile_search (pre @ rest) k tr =
   readFile_search rest k (tr @ map (\<lambda>b. CallFileExists (FileName b) k) pre)"
  by (induction pre arbitrary: tr) (simp_all add: Let_def)

lemma readFile_search_hit:
  "FileExists a k \<Longrightarrow>
   readFile_search (a # post) k tr =
     (case ReadFile a k of
        ReadOk d \<Rightarrow> Ok (d, FileName a)
      | ReadErr m \<Rightarrow> Err (WithStack (WithStack (Foreign m)))
      | ReadPanic e \<Rightarrow> Err (WithStack (Wrap ErrFileRead e)),
      tr @ [CallFileExists (FileName a) k, CallReadFile (FileName a) k])"
  by (simp add: Let_def archiveReadFile_def split: read_result.splits)

lemma readFile_search_first:
  assumes "\<forall>b\<in>set pre. \<not> FileExists b k" and "FileExists a k"
  shows "readFile_search (pre @ a # post) k tr =
     (case ReadFile a k of
        ReadOk d \<Rightarrow> Ok (d, FileName a)
      | ReadErr m \<Rightarrow> Err (WithStack (WithStack (Foreign m)))
      | ReadPanic e \<Rightarrow> Err (WithStack (Wrap ErrFileRead e)),
      tr @ map (\<lambda>b. CallFileExists (FileName b) k) (pre @ [a]) @ [CallReadFile (FileName a) k])"
  using assms
  by (simp add: readFile_search_skip readFile_search_hit del: readFile_search.simps)

text \<open>
  The key \<open>readFile\<close> looks up is the lower-cased path, de-normalized; it is computed only
  for a non-empty path.
\<close>

lemma readFile_nonempty:
  "filePath \<noteq> [] \<Longrightarrow>
   readFile archives filePath tr = readFile_search archives (denormalize (ToLower filePath)) tr"
  by (cases filePath)
    (simp_all add: readFile_def denormalize_def Let_def HasPrefix_def ReplaceAll_def ToLower_def)

lemma key_eval: "denormalize (ToLower ''/Data/X.txt'') = ''data'' @ [bslash] @ ''x.txt''"
  by (simp add: denormalize_def ToLower_def lower_byte_def ReplaceAll_def HasPrefix_def
      char_of_def bit_Suc_0_iff)

text \<open>
  Claim C1.  For every list of archives and every path, \<open>readFile\<close> is served by the
  first archive, in input order, that reports the path's key exists.  With no archive of
  \<open>pre\<close> reporting it and \<open>a\<close> reporting it, the archives \<open>post\<close> after \<open>a\<close> have no part
  in the result or in the calls made, for every path; and when a key is looked up at all
  (the path is not the empty string), the data and the display name are those of \<open>a\<close>,
  and the calls are one \<open>FileExists\<close> on each archive up to \<open>a\<close> and one \<open>ReadFile\<close> on
  \<open>a\<close>.  With \<open>pre = []\<close>: when the archives at index 0 and at index 1 both report the
  path, index 0 serves the read.
\<close>

theorem readFile_first_archive:
  assumes "\<forall>b\<in>set pre. \<not> FileExists b (denormalize (ToLower filePath))"
    and "FileExists a (denormalize (ToLower filePath))"
  shows "readFile (pre @ a # post) filePath tr = readFile (pre @ [a]) filePath tr
    \<and> (filePath \<noteq> [] \<longrightarrow>
        readFile (pre @ a # post) filePath tr =
          (case ReadFile a (denormalize (ToLower filePath)) of
             ReadOk d \<Rightarrow> Ok (d, FileName a)
           | ReadErr m \<Rightarrow> Err (WithStack (WithStack (Foreign m)))
           | ReadPanic e \<Rightarrow> Err (WithStack (Wrap ErrFileRead e)),
           tr @ map (\<lambda>b. CallFileExists (FileName b) (denormalize (ToLower filePath))) (pre @ [a])
              @ [CallReadFile (FileName a) (denormalize (ToLower filePath))]))"
proof (cases "filePath = []")
  case True
  then show ?thesis
    by (simp add: readFile_def ToLower_def ReplaceAll_def)
next
  case False
  with assms show ?thesis
    by (simp add: readFile_nonempty readFile_search_first del: readFile_search.simps)
qed

theorem readFile_first_archive_witness:
  "''/Data/X.txt'' \<noteq> []
   \<and> FileExists data_A (denormalize (ToLower ''/Data/X.txt''))
   \<and> FileExists data_B (denormalize (ToLower ''/Data/X.txt''))
   \<and> ReadFile data_B (denormalize (ToLower ''/Data/X.txt'')) = ReadOk ''2''
   \<and> readFile [data_A, data_B] ''/Data/X.txt'' [] = readFile [data_A] ''/Data/X.txt'' []
   \<and> readFile [data_A, data_B] ''/Data/X.txt'' [] =
       (Ok (''1'', ''A.mpq''),
        [CallFileExists ''A.mpq'' (''data'' @ [bslash] @ ''x.txt''),
         CallReadFile ''A.mpq'' (''data'' @ [bslash] @ ''x.txt'')])"
proof -
  have h1: "\<forall>b\<in>set []. \<not> FileExists b (denormalize (ToLower ''/Data/X.txt''))"
    by simp
  have h2: "FileExists data_A (denormalize (ToLower ''/Data/X.txt''))"
    by code_simp
  have b: "FileExists data_B (denormalize (ToLower ''/Data/X.txt''))
      \<and> ReadFile data_B (denormalize (ToLower ''/Data/X.txt'')) = ReadOk ''2''"
    by code_simp
  have ne: "''/Data/X.txt'' \<noteq> []"
    by simp
  have v: "(case ReadFile data_A (denormalize (ToLower ''/Data/X.txt'')) of
             ReadOk d \<Rightarrow> Ok (d, FileName data_A)
           | ReadErr m \<Rightarrow> Err (WithStack (WithStack (Foreign m)))
           | ReadPanic e \<Rightarrow> Err (WithStack (Wrap ErrFileRead e)),
           [] @ map (\<lambda>b. CallFileExists (FileName b) (denormalize (ToLower ''/Data/X.txt'')))
                  ([] @ [data_A])
              @ [CallReadFile (FileName data_A) (denormalize (ToLower ''/Data/X.txt''))]) =
       (Ok (''1'', ''A.mpq''),
        [CallFileExists ''A.mpq'' (''data'' @ [bslash] @ ''x.txt''),
         CallReadFile ''A.mpq'' (''data'' @ [bslash] @ ''x.txt'')])"
    by code_simp
  note T = readFile_first_archive [OF h1 h2, where post = "[data_B]" and tr = "[]"]
  from T have t1: "readFile ([] @ data_A # [data_B]) ''/Data/X.txt'' [] =
       readFile ([] @ [data_A]) ''/Data/X.txt'' []"
    by (rule conjunct1)
  from T ne have "readFile ([] @ data_A # [data_B]) ''/Data/X.txt'' [] =
          (case ReadFile data_A (denormalize (ToLower ''/Data/X.txt'')) of
             ReadOk d \<Rightarrow> Ok (d, FileName data_A)
           | ReadErr m \<Rightarrow> Err (WithStack (WithStack (Foreign m)))
           | ReadPanic e \<Rightarrow> Err (WithStack (Wrap ErrFileRead e)),
           [] @ map (\<lambda>b. CallFileExists (FileName b) (denormalize (ToLower ''/Data/X.txt'')))
                  ([] @ [data_A])
              @ [CallReadFile (FileName data_A) (denormalize (ToLower ''/Data/X.txt''))])"
    by blast
  from this v have t2: "readFile ([] @ data_A # [data_B]) ''/Data/X.txt'' [] =
       (Ok (''1'', ''A.mpq''),
        [CallFileExists ''A.mpq'' (''data'' @ [bslash] @ ''x.txt''),
         CallReadFile ''A.mpq'' (''data'' @ [bslash] @ ''x.txt'')])"
    by (rule trans)
  have l: "[] @ data_A # [data_B] = [data_A, data_B]" "[] @ [data_A] = [data_A]"
    by simp_all
  from ne h2 b t1 [unfolded l] t2 [unfolded l] show ?thesis
    by blast
qed

text \<open>
  Claim C10.  Once an archive of the chain reports the path, a failure of its read, an
  error it returns or a panic that was caught, is what \<open>readFile\<close> returns: the trace ends
  with that read, and no archive of \<open>post\<close> is asked, not even one that holds a readable
  copy.  A caught panic gives an error whose cause is \<open>ErrFileRead\<close>.
\<close>

theorem readFile_no_fallback:
  assumes "filePath \<noteq> []"
    and "\<forall>b\<in>set pre. \<not> FileExists b (denormalize (ToLower filePath))"
    and "FileExists a (denormalize (ToLower filePath))"
    and "\<forall>d. ReadFile a (denormalize (ToLower filePath)) \<noteq> ReadOk d"
  shows "\<exists>err. readFile (pre @ a # post) filePath tr =
           (Err err,
            tr @ map (\<lambda>b. CallFileExists (FileName b) (denormalize (ToLower filePath))) (pre @ [a])
               @ [CallReadFile (FileName a) (denormalize (ToLower filePath))])
         \<and> (\<forall>e. ReadFile a (denormalize (ToLower filePath)) = ReadPanic e
                \<longrightarrow> err = WithStack (Wrap ErrFileRead e))
         \<and> (\<forall>m. ReadFile a (denormalize (ToLower filePath)) = ReadErr m
                \<longrightarrow> err = WithStack (WithStack (Foreign m)))"
proof (cases "ReadFile a (denormalize (ToLower filePath))")
  case (ReadOk d)
  with assms(4) show ?thesis by simp
next
  case (ReadErr m)
  with assms(1-3) show ?thesis
    by (simp add: readFile_nonempty readFile_search_first del: readFile_search.simps)
next
  case (ReadPanic e)
  with assms(1-3) show ?thesis
    by (simp add: readFile_nonempty readFile_search_first del: readFile_search.simps)
qed

theorem readFile_no_fallback_witness:
  "''/Data/X.txt'' \<noteq> []
   \<and> FileExists (broken_archive ''A.mpq'' [''data'' @ [bslash] @ ''x.txt''])
        (denormalize (ToLower ''/Data/X.txt''))
   \<and> ReadFile (broken_archive ''A.mpq'' [''data'' @ [bslash] @ ''x.txt''])
        (denormalize (ToLower ''/Data/X.txt'')) = ReadPanic ''unexpected EOF''
   \<and> ReadFile (sample_archive ''B.mpq'' [(''data'' @ [bslash] @ ''x.txt'', ''2'')])
        (denormalize (ToLower ''/Data/X.txt'')) = ReadOk ''2''
   \<and> readFile [broken_archive ''A.mpq'' [''data'' @ [bslash] @ ''x.txt''],
               sample_archive ''B.mpq'' [(''data'' @ [bslash] @ ''x.txt'', ''2'')]]
              ''/Data/X.txt'' [] =
       (Err (WithStack (Wrap ErrFileRead ''unexpected EOF'')),
        [CallFileExists ''A.mpq'' (''data'' @ [bslash] @ ''x.txt''),
         CallReadFile ''A.mpq'' (''data'' @ [bslash] @ ''x.txt'')])"
  using readFile_no_fallback [of "''/Data/X.txt''" "[]"
      "broken_archive ''A.mpq'' [''data'' @ [bslash] @ ''x.txt'']"
      "[sample_archive ''B.mpq'' [(''data'' @ [bslash] @ ''x.txt'', ''2'')]]" "[]"]
  by (simp add: key_eval sample_archive_def broken_archive_def)

section \<open>The empty path\<close>

text \<open>
  Claim C5.  \<open>denormalize\<close> tests the prefix before it slices, and gives the empty native
  path on the empty path and on the path that is only a separator.  \<open>readFile\<close> reads
  \<open>filePath[0]\<close> with no test of the length: on the empty path it panics, before any
  archive is asked, and nothing recovers that panic.  The command line \<open>-files "/"\<close>
  reaches it: the one path \<open>/\<close> is de-normalized to the empty path and the run crashes.
\<close>

theorem readFile_empty_path_panics:
  "denormalize [] = [] \<and> denormalize [slash] = []
   \<and> readFile archives [] tr =
       (Panic ''runtime error: index out of range [0] with length 0'', tr)
   \<and> extractPaths os archives (Split ''/'' (CHR '','')) lower tr =
       (Crash ''runtime error: index out of range [0] with length 0'',
        tr @ [PrintExtracting []])"
  by (simp add: denormalize_def ReplaceAll_def HasPrefix_def readFile_def ToLower_def
      extractPaths_def extractFile_def)

section \<open>The extraction loop\<close>

lemma readFile_search_none:
  "\<forall>b\<in>set archives. \<not> FileExists b k \<Longrightarrow>
   readFile_search archives k tr =
     (Err (Wrapf ErrNotFound ''file not found %q'' [k]),
      tr @ map (\<lambda>b. CallFileExists (FileName b) k) archives)"
  using readFile_search_skip [of archives k "[]" tr] by simp

lemma extractAllFiles_append:
  "extractAllFiles os archives (pre @ rest) lower tr =
     (case extractAllFiles os archives pre lower tr of
        (Ok u, tr1) \<Rightarrow> extractAllFiles os archives rest lower tr1
      | (Err err, tr1) \<Rightarrow> (Err err, tr1)
      | (Panic e, tr1) \<Rightarrow> (Panic e, tr1))"
proof (induction pre arbitrary: tr)
  case Nil
  show ?case by simp
next
  case (Cons p pre)
  show ?case
    by (simp add: Cons split: prod.splits result.splits error.splits)
qed

lemma extractAllFiles_error_cause:
  "extractAllFiles os archives paths lower tr = (Err err, tr') \<Longrightarrow>
   Cause err \<noteq> ErrNotFound \<and> Cause err \<noteq> ErrFileRead"
proof (induction paths arbitrary: tr)
  case Nil
  then show ?case by simp
next
  case (Cons p paths)
  from Cons.prems show ?case
    by (auto split: prod.splits result.splits error.splits dest: Cons.IH)
qed

lemma extractFile_read_error:
  "readFile archives X (tr @ [PrintExtracting X]) = (Err err, tr') \<Longrightarrow>
   extractFile os archives X lower tr = (Err (WithStack err), tr')"
  by (simp add: extractFile_def)

text \<open>
  Claim C2.  A panic of the archive's \<open>ReadFile\<close> is caught by \<open>archiveReadFile\<close> and
  returned as \<open>ErrFileRead\<close> wrapped with the panic's text.  When that happens for path
  \<open>X\<close>, \<open>extractAllFiles\<close> logs \<open>X\<close> with the error and goes on with the paths after it;
  when no archive has \<open>X\<close>, it logs \<open>X\<close> as not found and goes on alike.  An error that
  \<open>extractAllFiles\<close> returns never has \<open>ErrNotFound\<close> or \<open>ErrFileRead\<close> as its cause:
  neither class ends the loop.
\<close>

theorem read_failure_is_skipped:
  "(ReadFile a k = ReadPanic e \<longrightarrow>
      archiveReadFile a k tr0 = (Inl (Wrap ErrFileRead e), tr0 @ [CallReadFile (FileName a) k])
      \<and> Cause (Wrap ErrFileRead e) = ErrFileRead)
   \<and> (X \<noteq> [] \<and> (\<forall>b\<in>set pre. \<not> FileExists b (denormalize (ToLower X)))
        \<and> FileExists c (denormalize (ToLower X))
        \<and> ReadFile c (denormalize (ToLower X)) = ReadPanic e' \<longrightarrow>
      extractAllFiles os (pre @ c # post) (X # Ys) lower tr =
      extractAllFiles os (pre @ c # post) Ys lower
        (tr @ PrintExtracting X
            # map (\<lambda>b. CallFileExists (FileName b) (denormalize (ToLower X))) (pre @ [c])
            @ [CallReadFile (FileName c) (denormalize (ToLower X)),
               LogReadError X (WithStack (WithStack (Wrap ErrFileRead e')))]))
   \<and> (X \<noteq> [] \<and> (\<forall>b\<in>set archives. \<not> FileExists b (denormalize (ToLower X))) \<longrightarrow>
      extractAllFiles os archives (X # Ys) lower tr =
      extractAllFiles os archives Ys lower
        (tr @ PrintExtracting X
            # map (\<lambda>b. CallFileExists (FileName b) (denormalize (ToLower X))) archives
            @ [LogNotFound X]))
   \<and> (extractAllFiles os archives paths lower tr = (Err err, tr') \<longrightarrow>
        Cause err \<noteq> ErrNotFound \<and> Cause err \<noteq> ErrFileRead)"
proof (intro conjI impI)
  assume "ReadFile a k = ReadPanic e"
  then show "archiveReadFile a k tr0 = (Inl (Wrap ErrFileRead e), tr0 @ [CallReadFile (FileName a) k])"
    by (simp add: archiveReadFile_def)
next
  show "Cause (Wrap ErrFileRead e) = ErrFileRead" by simp
next
  assume h: "X \<noteq> [] \<and> (\<forall>b\<in>set pre. \<not> FileExists b (denormalize (ToLower X)))
        \<and> FileExists c (denormalize (ToLower X))
        \<and> ReadFile c (denormalize (ToLower X)) = ReadPanic e'"
  then have "readFile (pre @ c # post) X (tr @ [PrintExtracting X]) =
      (Err (WithStack (Wrap ErrFileRead e')),
       (tr @ [PrintExtracting X])
         @ map (\<lambda>b. CallFileExists (FileName b) (denormalize (ToLower X))) (pre @ [c])
         @ [CallReadFile (FileName c) (denormalize (ToLower X))])"
    by (simp add: readFile_nonempty readFile_search_first del: readFile_search.simps)
  from extractFile_read_error [OF this]
  show "extractAllFiles os (pre @ c # post) (X # Ys) lower tr =
      extractAllFiles os (pre @ c # post) Ys lower
        (tr @ PrintExtracting X
            # map (\<lambda>b. CallFileExists (FileName b) (denormalize (ToLower X))) (pre @ [c])
            @ [CallReadFile (FileName c) (denormalize (ToLower X)),
               LogReadError X (WithStack (WithStack (Wrap ErrFileRead e')))])"
    by simp
next
  assume h: "X \<noteq> [] \<and> (\<forall>b\<in>set archives. \<not> FileExists b (denormalize (ToLower X)))"
  then have "readFile archives X (tr @ [PrintExtracting X]) =
      (Err (Wrapf ErrNotFound ''file not found %q'' [denormalize (ToLower X)]),
       (tr @ [PrintExtracting X])
         @ map (\<lambda>b. CallFileExists (FileName b) (denormalize (ToLower X))) archives)"
    by (simp add: readFile_nonempty readFile_search_none del: readFile_search.simps)
  from extractFile_read_error [OF this]
  show "extractAllFiles os archives (X # Ys) lower tr =
      extractAllFiles os archives Ys lower
        (tr @ PrintExtracting X
            # map (\<lambda>b. CallFileExists (FileName b) (denormalize (ToLower X))) archives
            @ [LogNotFound X])"
    by simp
next
  assume "extractAllFiles os archives paths lower tr = (Err err, tr')"
  then show "Cause err \<noteq> ErrNotFound" "Cause err \<noteq> ErrFileRead"
    using extractAllFiles_error_cause by blast+
qed

theorem read_failure_is_skipped_witness:
  "ReadFile broken_A ''x.txt'' = ReadPanic ''unexpected EOF''
   \<and> archiveReadFile broken_A ''x.txt'' [] =
        (Inl (Wrap ErrFileRead ''unexpected EOF''), [] @ [CallReadFile (FileName broken_A) ''x.txt''])
   \<and> ''x.txt'' \<noteq> []
   \<and> FileExists broken_A (denormalize (ToLower ''x.txt''))
   \<and> ReadFile broken_A (denormalize (ToLower ''x.txt'')) = ReadPanic ''unexpected EOF''
   \<and> extractAllFiles sample_sys [broken_A, good_B] [''x.txt'', ''y.txt''] False [] =
       (Ok (),
        [PrintExtracting ''x.txt'', CallFileExists ''A.mpq'' ''x.txt'',
         CallReadFile ''A.mpq'' ''x.txt'',
         LogReadError ''x.txt'' (WithStack (WithStack (Wrap ErrFileRead ''unexpected EOF''))),
         PrintExtracting ''y.txt'', CallFileExists ''A.mpq'' ''y.txt'',
         CallFileExists ''B.mpq'' ''y.txt'', CallReadFile ''B.mpq'' ''y.txt'',
         PrintCreating ''_dump_/B/y.txt'', OsMkdirAll ''_dump_/B'',
         IoWriteFile ''_dump_/B/y.txt'' ''2''])
   \<and> ''z.txt'' \<noteq> []
   \<and> \<not> FileExists good_B (denormalize (ToLower ''z.txt''))
   \<and> extractAllFiles sample_sys [good_B] [''z.txt'', ''y.txt''] False [] =
       (Ok (),
        [PrintExtracting ''z.txt'', CallFileExists ''B.mpq'' ''z.txt'', LogNotFound ''z.txt'',
         PrintExtracting ''y.txt'', CallFileExists ''B.mpq'' ''y.txt'',
         CallReadFile ''B.mpq'' ''y.txt'',
         PrintCreating ''_dump_/B/y.txt'', OsMkdirAll ''_dump_/B'',
         IoWriteFile ''_dump_/B/y.txt'' ''2''])
   \<and> extractAllFiles readonly_sys [good_B] [''y.txt''] False [] =
       (Err (WithStack (WithStack (Foreign ''permission denied''))),
        [PrintExtracting ''y.txt'', CallFileExists ''B.mpq'' ''y.txt'',
         CallReadFile ''B.mpq'' ''y.txt'',
         PrintCreating ''_dump_/B/y.txt'', OsMkdirAll ''_dump_/B''])
   \<and> Cause (WithStack (WithStack (Foreign ''permission denied''))) \<noteq> ErrNotFound
   \<and> Cause (WithStack (WithStack (Foreign ''permission denied''))) \<noteq> ErrFileRead"
proof -
  note T1 = read_failure_is_skipped [where a = broken_A and k = "''x.txt''"
      and e = "''unexpected EOF''" and ?tr0.0 = "[]"
      and X = "''x.txt''" and pre = "[]" and c = broken_A
      and e' = "''unexpected EOF''" and post = "[good_B]"
      and Ys = "[''y.txt'']" and os = sample_sys and lower = False and tr = "[]"
      and archives = "[good_B]" and paths = "[''y.txt'']" and tr' = "[]" and err = ErrNotFound]
  note T2 = read_failure_is_skipped [where a = broken_A and k = "''x.txt''"
      and X = "''z.txt''" and Ys = "[''y.txt'']" and os = sample_sys
      and lower = False and tr = "[]" and archives = "[good_B]"]
  note T3 = read_failure_is_skipped [where a = broken_A and k = "''x.txt''"
      and os = readonly_sys and lower = False and tr = "[]" and archives = "[good_B]"
      and paths = "[''y.txt'']"
      and tr' = "[PrintExtracting ''y.txt'', CallFileExists ''B.mpq'' ''y.txt'',
         CallReadFile ''B.mpq'' ''y.txt'',
         PrintCreating ''_dump_/B/y.txt'', OsMkdirAll ''_dump_/B'']"
      and err = "WithStack (WithStack (Foreign ''permission denied''))"]
  have hA: "ReadFile broken_A ''x.txt'' = ReadPanic ''unexpected EOF''"
    by code_simp
  have hB: "''x.txt'' \<noteq> [] \<and> (\<forall>b\<in>set []. \<not> FileExists b (denormalize (ToLower ''x.txt'')))
        \<and> FileExists broken_A (denormalize (ToLower ''x.txt''))
        \<and> ReadFile broken_A (denormalize (ToLower ''x.txt'')) = ReadPanic ''unexpected EOF''"
    by code_simp
  have hC: "''z.txt'' \<noteq> [] \<and> (\<forall>b\<in>set [good_B]. \<not> FileExists b (denormalize (ToLower ''z.txt'')))"
    by code_simp
  have hD: "extractAllFiles readonly_sys [good_B] [''y.txt''] False [] =
       (Err (WithStack (WithStack (Foreign ''permission denied''))),
        [PrintExtracting ''y.txt'', CallFileExists ''B.mpq'' ''y.txt'',
         CallReadFile ''B.mpq'' ''y.txt'',
         PrintCreating ''_dump_/B/y.txt'', OsMkdirAll ''_dump_/B''])"
    by code_simp
  have restB: "extractAllFiles sample_sys ([] @ broken_A # [good_B]) [''y.txt''] False
        ([] @ PrintExtracting ''x.txt''
            # map (\<lambda>b. CallFileExists (FileName b) (denormalize (ToLower ''x.txt''))) ([] @ [broken_A])
            @ [CallReadFile (FileName broken_A) (denormalize (ToLower ''x.txt'')),
               LogReadError ''x.txt'' (WithStack (WithStack (Wrap ErrFileRead ''unexpected EOF'')))]) =
       (Ok (),
        [PrintExtracting ''x.txt'', CallFileExists ''A.mpq'' ''x.txt'',
         CallReadFile ''A.mpq'' ''x.txt'',
         LogReadError ''x.txt'' (WithStack (WithStack (Wrap ErrFileRead ''unexpected EOF''))),
         PrintExtracting ''y.txt'', CallFileExists ''A.mpq'' ''y.txt'',
         CallFileExists ''B.mpq'' ''y.txt'', CallReadFile ''B.mpq'' ''y.txt'',
         PrintCreating ''_dump_/B/y.txt'', OsMkdirAll ''_dump_/B'',
         IoWriteFile ''_dump_/B/y.txt'' ''2''])"
    by code_simp
  have restC: "extractAllFiles sample_sys [good_B] [''y.txt''] False
        ([] @ PrintExtracting ''z.txt''
            # map (\<lambda>b. CallFileExists (FileName b) (denormalize (ToLower ''z.txt''))) [good_B]
            @ [LogNotFound ''z.txt'']) =
       (Ok (),
        [PrintExtracting ''z.txt'', CallFileExists ''B.mpq'' ''z.txt'', LogNotFound ''z.txt'',
         PrintExtracting ''y.txt'', CallFileExists ''B.mpq'' ''y.txt'',
         CallReadFile ''B.mpq'' ''y.txt'',
         PrintCreating ''_dump_/B/y.txt'', OsMkdirAll ''_dump_/B'',
         IoWriteFile ''_dump_/B/y.txt'' ''2''])"
    by code_simp
  from T1 hA have cA: "archiveReadFile broken_A ''x.txt'' [] =
        (Inl (Wrap ErrFileRead ''unexpected EOF''), [] @ [CallReadFile (FileName broken_A) ''x.txt''])"
    by blast
  from T1 hB have "extractAllFiles sample_sys ([] @ broken_A # [good_B]) [''x.txt'', ''y.txt''] False [] =
      extractAllFiles sample_sys ([] @ broken_A # [good_B]) [''y.txt''] False
        ([] @ PrintExtracting ''x.txt''
            # map (\<lambda>b. CallFileExists (FileName b) (denormalize (ToLower ''x.txt''))) ([] @ [broken_A])
            @ [CallReadFile (FileName broken_A) (denormalize (ToLower ''x.txt'')),
               LogReadError ''x.txt'' (WithStack (WithStack (Wrap ErrFileRead ''unexpected EOF'')))])"
    by blast
  with restB have cB: "extractAllFiles sample_sys [broken_A, good_B] [''x.txt'', ''y.txt''] False [] =
       (Ok (),
        [PrintExtracting ''x.txt'', CallFileExists ''A.mpq'' ''x.txt'',
         CallReadFile ''A.mpq'' ''x.txt'',
         LogReadError ''x.txt'' (WithStack (WithStack (Wrap ErrFileRead ''unexpected EOF''))),
         PrintExtracting ''y.txt'', CallFileExists ''A.mpq'' ''y.txt'',
         CallFileExists ''B.mpq'' ''y.txt'', CallReadFile ''B.mpq'' ''y.txt'',
         PrintCreating ''_dump_/B/y.txt'', OsMkdirAll ''_dump_/B'',
         IoWriteFile ''_dump_/B/y.txt'' ''2''])"
    by (simp only: append_Nil)
  from T2 hC have "extractAllFiles sample_sys [good_B] [''z.txt'', ''y.txt''] False [] =
      extractAllFiles sample_sys [good_B] [''y.txt''] False
        ([] @ PrintExtracting ''z.txt''
            # map (\<lambda>b. CallFileExists (FileName b) (denormalize (ToLower ''z.txt''))) [good_B]
            @ [LogNotFound ''z.txt''])"
    by blast
  with restC have cC: "extractAllFiles sample_sys [good_B] [''z.txt'', ''y.txt''] False [] =
       (Ok (),
        [PrintExtracting ''z.txt'', CallFileExists ''B.mpq'' ''z.txt'', LogNotFound ''z.txt'',
         PrintExtracting ''y.txt'', CallFileExists ''B.mpq'' ''y.txt'',
         CallReadFile ''B.mpq'' ''y.txt'',
         PrintCreating ''_dump_/B/y.txt'', OsMkdirAll ''_dump_/B'',
         IoWriteFile ''_dump_/B/y.txt'' ''2''])"
    by (simp only:)
  from T3 hD have cD: "Cause (WithStack (WithStack (Foreign ''permission denied''))) \<noteq> ErrNotFound
      \<and> Cause (WithStack (WithStack (Foreign ''permission denied''))) \<noteq> ErrFileRead"
    by blast
  from hC have hC': "\<not> FileExists good_B (denormalize (ToLower ''z.txt''))"
    by simp
  from hA cA hB cB hC' cC hD cD show ?thesis by blast
qed

text \<open>What \<open>extractFile\<close> returns when the directory or the file cannot be written.\<close>

lemma extractFile_write_failure:
  assumes "readFile archives X (tr1 @ [PrintExtracting X]) = (Ok (data, name), tr2)"
    and "dst = (let d = normalize_path (Join os [''_dump_'', pathutil_FileName os name, X])
                in if lower then ToLower d else d)"
    and "MkdirAll os (tr2 @ [PrintCreating dst]) (Dir os dst) = Some msg
         \<or> (MkdirAll os (tr2 @ [PrintCreating dst]) (Dir os dst) = None
            \<and> WriteFile os (tr2 @ [PrintCreating dst, OsMkdirAll (Dir os dst)]) dst data = Some msg)"
  shows "extractFile os archives X lower tr1 =
     (Err (WithStack (Foreign msg)),
      tr2 @ PrintCreating dst # OsMkdirAll (Dir os dst)
          # (if MkdirAll os (tr2 @ [PrintCreating dst]) (Dir os dst) = None
             then [IoWriteFile dst data] else []))"
  using assms by (auto simp: extractFile_def Let_def)

text \<open>
  Claim C3.  When the batch has come to path \<open>X\<close>, \<open>X\<close> has been read, and creating the
  destination directory fails, or writing the bytes does, \<open>extractAllFiles\<close> returns
  that error at once, whatever paths \<open>rest\<close> remain: the trace ends with the failed call
  and the error is not one the loop skips.  \<open>main\<close> ends the run with it
  (\<open>log.Fatalf\<close>).
\<close>

theorem write_failure_aborts_batch:
  assumes "extractAllFiles os archives pre lower tr = (Ok (), tr1)"
    and "readFile archives X (tr1 @ [PrintExtracting X]) = (Ok (data, name), tr2)"
    and "dst = (let d = normalize_path (Join os [''_dump_'', pathutil_FileName os name, X])
                in if lower then ToLower d else d)"
    and "MkdirAll os (tr2 @ [PrintCreating dst]) (Dir os dst) = Some msg
         \<or> (MkdirAll os (tr2 @ [PrintCreating dst]) (Dir os dst) = None
            \<and> WriteFile os (tr2 @ [PrintCreating dst, OsMkdirAll (Dir os dst)]) dst data = Some msg)"
  shows "extractAllFiles os archives (pre @ X # rest) lower tr =
           (Err (WithStack (WithStack (Foreign msg))),
            tr2 @ PrintCreating dst # OsMkdirAll (Dir os dst)
                # (if MkdirAll os (tr2 @ [PrintCreating dst]) (Dir os dst) = None
                   then [IoWriteFile dst data] else []))
         \<and> (map denormalize filePaths = pre @ X # rest \<longrightarrow>
              fst (extractPaths os archives filePaths lower tr) =
                Fatal (FatalError (WithStack (WithStack (Foreign msg)))))"
proof -
  have step: "extractAllFiles os archives (X # rest) lower tr1 =
           (Err (WithStack (WithStack (Foreign msg))),
            tr2 @ PrintCreating dst # OsMkdirAll (Dir os dst)
                # (if MkdirAll os (tr2 @ [PrintCreating dst]) (Dir os dst) = None
                   then [IoWriteFile dst data] else []))"
    by (simp add: extractFile_write_failure [OF assms(2-4)])
  have all: "extractAllFiles os archives (pre @ X # rest) lower tr =
           (Err (WithStack (WithStack (Foreign msg))),
            tr2 @ PrintCreating dst # OsMkdirAll (Dir os dst)
                # (if MkdirAll os (tr2 @ [PrintCreating dst]) (Dir os dst) = None
                   then [IoWriteFile dst data] else []))"
    by (simp only: extractAllFiles_append assms(1) step prod.case result.case)
  then show ?thesis
    by (simp add: extractPaths_def)
qed

theorem write_failure_aborts_batch_witness:
  "extractAllFiles readonly_sys [good_B] [] False [] = (Ok (), [])
   \<and> readFile [good_B] ''y.txt'' ([] @ [PrintExtracting ''y.txt'']) =
        (Ok (''2'', ''B.mpq''),
         [PrintExtracting ''y.txt'', CallFileExists ''B.mpq'' ''y.txt'',
          CallReadFile ''B.mpq'' ''y.txt''])
   \<and> MkdirAll readonly_sys
        ([PrintExtracting ''y.txt'', CallFileExists ''B.mpq'' ''y.txt'',
          CallReadFile ''B.mpq'' ''y.txt''] @ [PrintCreating ''_dump_/B/y.txt''])
        (Dir readonly_sys ''_dump_/B/y.txt'') = Some ''permission denied''
   \<and> extractAllFiles readonly_sys [good_B] [''y.txt'', ''x.txt''] False [] =
        (Err (WithStack (WithStack (Foreign ''permission denied''))),
         [PrintExtracting ''y.txt'', CallFileExists ''B.mpq'' ''y.txt'',
          CallReadFile ''B.mpq'' ''y.txt'', PrintCreating ''_dump_/B/y.txt'',
          OsMkdirAll ''_dump_/B''])
   \<and> fst (extractPaths readonly_sys [good_B] [''/y.txt'', ''x.txt''] False []) =
        Fatal (FatalError (WithStack (WithStack (Foreign ''permission denied''))))"
proof -
  let ?tr2 = "[PrintExtracting ''y.txt'', CallFileExists ''B.mpq'' ''y.txt'',
          CallReadFile ''B.mpq'' ''y.txt'']"
  have h1: "extractAllFiles readonly_sys [good_B] [] False [] = (Ok (), [])"
    by simp
  have h2: "readFile [good_B] ''y.txt'' ([] @ [PrintExtracting ''y.txt'']) =
        (Ok (''2'', ''B.mpq''), ?tr2)"
    by code_simp
  have h3: "''_dump_/B/y.txt'' =
      (let d = normalize_path (Join readonly_sys [''_dump_'', pathutil_FileName readonly_sys ''B.mpq'', ''y.txt''])
       in if False then ToLower d else d)"
    by code_simp
  have h4: "MkdirAll readonly_sys (?tr2 @ [PrintCreating ''_dump_/B/y.txt''])
        (Dir readonly_sys ''_dump_/B/y.txt'') = Some ''permission denied''"
    by code_simp
  have h5: "map denormalize [''/y.txt'', ''x.txt''] = [] @ ''y.txt'' # [''x.txt'']"
    by code_simp
  have h6: "Dir readonly_sys ''_dump_/B/y.txt'' = ''_dump_/B''"
    by code_simp
  note T = write_failure_aborts_batch [OF h1 h2 h3 disjI1 [OF h4],
      where rest = "[''x.txt'']" and filePaths = "[''/y.txt'', ''x.txt'']"]
  from T h4 h5 h6 have
    "extractAllFiles readonly_sys [good_B] [''y.txt'', ''x.txt''] False [] =
        (Err (WithStack (WithStack (Foreign ''permission denied''))),
         [PrintExtracting ''y.txt'', CallFileExists ''B.mpq'' ''y.txt'',
          CallReadFile ''B.mpq'' ''y.txt'', PrintCreating ''_dump_/B/y.txt'',
          OsMkdirAll ''_dump_/B''])
     \<and> fst (extractPaths readonly_sys [good_B] [''/y.txt'', ''x.txt''] False []) =
        Fatal (FatalError (WithStack (WithStack (Foreign ''permission denied''))))"
    by (simp only: append_Nil append_Cons option.distinct if_False simp_thms)
  with h1 h2 h4 show ?thesis by blast
qed

section \<open>Filtering a listfile\<close>

lemma anyFileExists_fst:
  "fst (anyFileExists archives k tr) = (\<exists>a\<in>set archives. FileExists a k)"
  by (induction archives arbitrary: tr) (simp_all add: Let_def)

lemma scanListfile_fst:
  "fst (scanListfile archives lines acc tr) =
     acc @ filter (\<lambda>k. \<exists>a\<in>set archives. FileExists a k) (map denormalize lines)"
proof (induction lines arbitrary: acc tr)
  case Nil
  show ?case by simp
next
  case (Cons line lines)
  obtain b tr1 where any: "anyFileExists archives (denormalize line) tr = (b, tr1)"
    by (cases "anyFileExists archives (denormalize line) tr")
  with anyFileExists_fst [of archives "denormalize line" tr]
  have b: "b = (\<exists>a\<in>set archives. FileExists a (denormalize line))" by simp
  show ?case
    by (cases b) (use any b in \<open>simp_all add: Let_def Cons.IH\<close>)
qed

text \<open>
  Claim C7.  For the bundled listfile and for an external listfile that can be read, the
  paths returned are the scanned lines, each in native form (\<open>denormalize\<close>), in order,
  keeping exactly those that some archive reports: the entry of a line is in the result
  if and only if at least one archive reports that its native form exists.  A line that
  no archive has gives no entry.  The lines are those the scanner yields from the data.
\<close>

theorem listfile_filter_keeps_existing:
  "(\<exists>fps. fst (getFilePathsFromBundledListfile os archives data tr) = Inr fps
       \<and> fps = filter (\<lambda>k. \<exists>a\<in>set archives. FileExists a k) (map denormalize (Scan os data))
       \<and> (\<forall>line\<in>set (Scan os data).
            denormalize line \<in> set fps \<longleftrightarrow> (\<exists>a\<in>set archives. FileExists a (denormalize line))))
   \<and> (ioutil_ReadFile os tr listfilePath = Inr buf \<longrightarrow>
       (\<exists>fps. fst (getFilePathsFromListfile os archives listfilePath tr) = Inr fps
          \<and> fps = filter (\<lambda>k. \<exists>a\<in>set archives. FileExists a k) (map denormalize (Scan os buf))
          \<and> (\<forall>line\<in>set (Scan os buf).
               denormalize line \<in> set fps \<longleftrightarrow> (\<exists>a\<in>set archives. FileExists a (denormalize line)))))"
proof (intro conjI impI)
  have "fst (getFilePathsFromBundledListfile os archives data tr) =
     Inr (filter (\<lambda>k. \<exists>a\<in>set archives. FileExists a k) (map denormalize (Scan os data)))"
    using scanListfile_fst [of archives "Scan os data" "[]" tr]
    by (simp add: getFilePathsFromBundledListfile_def case_prod_beta)
  then show "\<exists>fps. fst (getFilePathsFromBundledListfile os archives data tr) = Inr fps
       \<and> fps = filter (\<lambda>k. \<exists>a\<in>set archives. FileExists a k) (map denormalize (Scan os data))
       \<and> (\<forall>line\<in>set (Scan os data).
            denormalize line \<in> set fps \<longleftrightarrow> (\<exists>a\<in>set archives. FileExists a (denormalize line)))"
    by auto
next
  assume "ioutil_ReadFile os tr listfilePath = Inr buf"
  then have "fst (getFilePathsFromListfile os archives listfilePath tr) =
          Inr (filter (\<lambda>k. \<exists>a\<in>set archives. FileExists a k) (map denormalize (Scan os buf)))"
    using scanListfile_fst [of archives "Scan os buf" "[]" "tr @ [IoReadFile listfilePath]"]
    by (simp add: getFilePathsFromListfile_def case_prod_beta)
  then show "\<exists>fps. fst (getFilePathsFromListfile os archives listfilePath tr) = Inr fps
          \<and> fps = filter (\<lambda>k. \<exists>a\<in>set archives. FileExists a k) (map denormalize (Scan os buf))
          \<and> (\<forall>line\<in>set (Scan os buf).
               denormalize line \<in> set fps \<longleftrightarrow> (\<exists>a\<in>set archives. FileExists a (denormalize line)))"
    by auto
qed

theorem listfile_filter_keeps_existing_witness:
  "ioutil_ReadFile listfile_sys [] ''listfile.txt'' =
      Inr (''/y.txt'' @ [CHR 0x0A] @ ''z.txt'' @ [CHR 0x0A])
   \<and> Scan listfile_sys (''/y.txt'' @ [CHR 0x0A] @ ''z.txt'' @ [CHR 0x0A]) = [''/y.txt'', ''z.txt'']
   \<and> fst (getFilePathsFromListfile listfile_sys [broken_A, good_B] ''listfile.txt'' []) =
       Inr [''y.txt'']
   \<and> fst (getFilePathsFromBundledListfile listfile_sys [broken_A, good_B]
            (''/y.txt'' @ [CHR 0x0A] @ ''z.txt'' @ [CHR 0x0A]) []) = Inr [''y.txt'']
   \<and> (\<exists>a\<in>set [broken_A, good_B]. FileExists a (denormalize ''/y.txt''))
   \<and> \<not> (\<exists>a\<in>set [broken_A, good_B]. FileExists a (denormalize ''z.txt''))"
proof -
  let ?buf = "''/y.txt'' @ [CHR 0x0A] @ ''z.txt'' @ [CHR 0x0A]"
  have h: "ioutil_ReadFile listfile_sys [] ''listfile.txt'' = Inr ?buf"
    by code_simp
  have s: "Scan listfile_sys ?buf = [''/y.txt'', ''z.txt'']"
    by code_simp
  have f: "filter (\<lambda>k. \<exists>a\<in>set [broken_A, good_B]. FileExists a k)
             (map denormalize [''/y.txt'', ''z.txt'']) = [''y.txt'']"
    by code_simp
  have e: "(\<exists>a\<in>set [broken_A, good_B]. FileExists a (denormalize ''/y.txt''))
      \<and> \<not> (\<exists>a\<in>set [broken_A, good_B]. FileExists a (denormalize ''z.txt''))"
    by code_simp
  note T = listfile_filter_keeps_existing [where os = listfile_sys
      and archives = "[broken_A, good_B]" and data = ?buf and tr = "[]"
      and listfilePath = "''listfile.txt''" and buf = ?buf]
  from T h have "fst (getFilePathsFromListfile listfile_sys [broken_A, good_B] ''listfile.txt'' []) =
       Inr [''y.txt'']
   \<and> fst (getFilePathsFromBundledListfile listfile_sys [broken_A, good_B] ?buf []) = Inr [''y.txt'']"
    unfolding s f by blast
  with h s e show ?thesis by blast
qed

section \<open>The lookup keys\<close>

lemma lookup_keys_append: "lookup_keys (xs @ ys) = lookup_keys xs @ lookup_keys ys"
  by (induction xs rule: lookup_keys.induct) simp_all

lemma anyFileExists_keys:
  "set (lookup_keys (snd (anyFileExists archives k tr))) \<subseteq> set (lookup_keys tr) \<union> {k}"
proof (induction archives arbitrary: tr)
  case Nil
  show ?case by auto
next
  case (Cons a archives)
  have "set (lookup_keys (snd (anyFileExists archives k (tr @ [CallFileExists (FileName a) k]))))
          \<subseteq> set (lookup_keys tr) \<union> {k}"
    using Cons.IH [of "tr @ [CallFileExists (FileName a) k]"] by (simp add: lookup_keys_append)
  then show ?case by (simp add: Let_def lookup_keys_append)
qed

lemma scanListfile_keys:
  "set (lookup_keys (snd (scanListfile archives lines acc tr)))
     \<subseteq> set (lookup_keys tr) \<union> denormalize ` set lines"
proof (induction lines arbitrary: acc tr)
  case Nil
  show ?case by simp
next
  case (Cons line lines)
  obtain b tr1 where any: "anyFileExists archives (denormalize line) tr = (b, tr1)"
    by (cases "anyFileExists archives (denormalize line) tr")
  with anyFileExists_keys [of archives "denormalize line" tr]
  have k1: "set (lookup_keys tr1) \<subseteq> set (lookup_keys tr) \<union> {denormalize line}" by simp
  have "set (lookup_keys (snd (scanListfile archives lines acc' tr1)))
          \<subseteq> set (lookup_keys tr) \<union> denormalize ` set (line # lines)" for acc'
    using Cons.IH [of acc' tr1] k1 by auto
  then show ?case
    by (cases b) (use any in \<open>simp_all add: Let_def del: set_simps image_insert\<close>)
qed

lemma readFile_search_keys:
  "set (lookup_keys (snd (readFile_search archives k tr))) \<subseteq> set (lookup_keys tr) \<union> {k}"
proof (induction archives arbitrary: tr)
  case Nil
  show ?case by auto
next
  case (Cons a archives)
  have "set (lookup_keys (snd (readFile_search archives k (tr @ [CallFileExists (FileName a) k]))))
          \<subseteq> set (lookup_keys tr) \<union> {k}"
    using Cons.IH [of "tr @ [CallFileExists (FileName a) k]"] by (simp add: lookup_keys_append)
  then show ?case
    by (simp add: Let_def lookup_keys_append archiveReadFile_def split: read_result.splits)
qed

lemma readFile_keys:
  "set (lookup_keys (snd (readFile archives filePath tr)))
     \<subseteq> set (lookup_keys tr) \<union> {denormalize (ToLower filePath)}"
proof (cases filePath)
  case Nil
  then show ?thesis by (auto simp: readFile_def ToLower_def ReplaceAll_def)
next
  case (Cons c cs)
  then show ?thesis
    using readFile_search_keys [of archives "denormalize (ToLower filePath)" tr]
    by (simp add: readFile_nonempty del: readFile_search.simps)
qed

lemma denormalize_no_slash: "slash \<notin> set (denormalize p)"
  by (auto simp: denormalize_def ReplaceAll_def Let_def dest: in_set_dropD)

lemma of_char_lower_byte:
  "(of_char (lower_byte c) :: nat) =
     (if 65 \<le> (of_char c :: nat) \<and> (of_char c :: nat) \<le> 90 then of_char c + 32 else of_char c)"
  by (simp add: lower_byte_def Let_def)

lemma lower_byte_idem: "lower_byte (lower_byte c) = lower_byte c"
  by (simp add: lower_byte_def Let_def)

lemma ToLower_idem: "ToLower (ToLower s) = ToLower s"
  by (simp add: ToLower_def lower_byte_idem)

lemma lower_byte_slash: "lower_byte c = slash \<longleftrightarrow> c = slash"
proof -
  have "lower_byte c = slash \<longleftrightarrow> (of_char (lower_byte c) :: nat) = of_char slash"
    by (simp only: of_char_eq_iff)
  also have "\<dots> \<longleftrightarrow> (of_char c :: nat) = of_char slash"
    by (simp add: of_char_lower_byte)
  also have "\<dots> \<longleftrightarrow> c = slash"
    by (simp only: of_char_eq_iff)
  finally show ?thesis .
qed

lemma lower_byte_bslash: "lower_byte c = bslash \<longleftrightarrow> c = bslash"
proof -
  have "lower_byte c = bslash \<longleftrightarrow> (of_char (lower_byte c) :: nat) = of_char bslash"
    by (simp only: of_char_eq_iff)
  also have "\<dots> \<longleftrightarrow> (of_char c :: nat) = of_char bslash"
    by (simp add: of_char_lower_byte)
  also have "\<dots> \<longleftrightarrow> c = bslash"
    by (simp only: of_char_eq_iff)
  finally show ?thesis .
qed

lemma ToLower_ReplaceAll:
  "ToLower (ReplaceAll s slash bslash) = ReplaceAll (ToLower s) slash bslash"
  by (induction s) (auto simp: ToLower_def ReplaceAll_def lower_byte_slash lower_byte_bslash)

lemma HasPrefix_ToLower: "HasPrefix (ToLower s) bslash = HasPrefix s bslash"
  by (cases s) (simp_all add: HasPrefix_def ToLower_def lower_byte_bslash)

lemma ToLower_drop: "ToLower (drop n s) = drop n (ToLower s)"
  by (simp add: ToLower_def drop_map)

lemma ToLower_denormalize: "ToLower (denormalize s) = denormalize (ToLower s)"
  by (simp add: denormalize_def Let_def ToLower_drop ToLower_ReplaceAll [symmetric] HasPrefix_ToLower
      del: One_nat_def)

lemma readFile_key_lower: "ToLower (denormalize (ToLower s)) = denormalize (ToLower s)"
  by (simp add: ToLower_denormalize ToLower_idem)

text \<open>
  Claim C6, as the code has it.  Every key passed to \<open>FileExists\<close> or \<open>ReadFile\<close>, by the
  two listfile filters and by \<open>readFile\<close>, is a de-normalized path: every forward
  separator replaced by a backslash and then one leading backslash removed, so it holds
  no forward separator.  For the filters it is the de-normalized listfile line; for
  \<open>readFile\<close> it is the de-normalized lower-cased path, which is lower-cased.
\<close>

theorem lookup_keys_denormalized:
  "(\<forall>k\<in>set (lookup_keys (snd (getFilePathsFromBundledListfile os archives data tr))).
      k \<in> set (lookup_keys tr) \<or> (k \<in> denormalize ` set (Scan os data) \<and> slash \<notin> set k))
   \<and> (\<forall>k\<in>set (lookup_keys (snd (getFilePathsFromListfile os archives listfilePath tr))).
      k \<in> set (lookup_keys tr)
      \<or> (\<exists>buf. ioutil_ReadFile os tr listfilePath = Inr buf
                \<and> k \<in> denormalize ` set (Scan os buf) \<and> slash \<notin> set k))
   \<and> (\<forall>k\<in>set (lookup_keys (snd (readFile archives filePath tr))).
      k \<in> set (lookup_keys tr)
      \<or> (k = denormalize (ToLower filePath) \<and> slash \<notin> set k \<and> ToLower k = k))"
proof (intro conjI ballI)
  fix k
  assume "k \<in> set (lookup_keys (snd (getFilePathsFromBundledListfile os archives data tr)))"
  then have "k \<in> set (lookup_keys (snd (scanListfile archives (Scan os data) [] tr)))"
    by (simp add: getFilePathsFromBundledListfile_def case_prod_beta)
  with scanListfile_keys [of archives "Scan os data" "[]" tr]
  have "k \<in> set (lookup_keys tr) \<or> k \<in> denormalize ` set (Scan os data)" by blast
  then show "k \<in> set (lookup_keys tr)
      \<or> (k \<in> denormalize ` set (Scan os data) \<and> slash \<notin> set k)"
    using denormalize_no_slash by blast
next
  fix k
  assume k: "k \<in> set (lookup_keys (snd (getFilePathsFromListfile os archives listfilePath tr)))"
  show "k \<in> set (lookup_keys tr)
      \<or> (\<exists>buf. ioutil_ReadFile os tr listfilePath = Inr buf
                \<and> k \<in> denormalize ` set (Scan os buf) \<and> slash \<notin> set k)"
  proof (cases "ioutil_ReadFile os tr listfilePath")
    case (Inl msg)
    with k show ?thesis
      by (simp add: getFilePathsFromListfile_def lookup_keys_append)
  next
    case (Inr buf)
    with k have "k \<in> set (lookup_keys
        (snd (scanListfile archives (Scan os buf) [] (tr @ [IoReadFile listfilePath]))))"
      by (simp add: getFilePathsFromListfile_def case_prod_beta)
    with scanListfile_keys [of archives "Scan os buf" "[]" "tr @ [IoReadFile listfilePath]"]
    have "k \<in> set (lookup_keys tr) \<or> k \<in> denormalize ` set (Scan os buf)"
      by (auto simp: lookup_keys_append)
    with Inr show ?thesis
      using denormalize_no_slash by blast
  qed
next
  fix k
  assume "k \<in> set (lookup_keys (snd (readFile archives filePath tr)))"
  with readFile_keys [of archives filePath tr]
  have "k \<in> set (lookup_keys tr) \<or> k = denormalize (ToLower filePath)" by blast
  then show "k \<in> set (lookup_keys tr)
      \<or> (k = denormalize (ToLower filePath) \<and> slash \<notin> set k \<and> ToLower k = k)"
    using denormalize_no_slash readFile_key_lower by auto
qed


theorem lookup_keys_denormalized_witness:
  "lookup_keys (snd (getFilePathsFromBundledListfile listfile_sys [good_B] ''/Data/X.txt'' [])) =
     [''Data'' @ [bslash] @ ''X.txt'']
   \<and> lookup_keys (snd (getFilePathsFromListfile listfile_sys [good_B] ''listfile.txt'' [])) =
     [''y.txt'', ''z.txt'']
   \<and> lookup_keys (snd (readFile [good_B] ''/Y.txt'' [])) = [''y.txt'', ''y.txt'']
   \<and> (''Data'' @ [bslash] @ ''X.txt'' \<in> denormalize ` set (Scan listfile_sys ''/Data/X.txt'')
        \<and> slash \<notin> set (''Data'' @ [bslash] @ ''X.txt''))
   \<and> (\<exists>buf. ioutil_ReadFile listfile_sys [] ''listfile.txt'' = Inr buf
             \<and> ''y.txt'' \<in> denormalize ` set (Scan listfile_sys buf) \<and> slash \<notin> set ''y.txt'')
   \<and> (''y.txt'' = denormalize (ToLower ''/Y.txt'') \<and> slash \<notin> set ''y.txt''
        \<and> ToLower ''y.txt'' = ''y.txt'')"
proof -
  note T = lookup_keys_denormalized [where os = listfile_sys and archives = "[good_B]"
      and data = "''/Data/X.txt''" and tr = "[]" and listfilePath = "''listfile.txt''"
      and filePath = "''/Y.txt''"]
  have k1: "lookup_keys (snd (getFilePathsFromBundledListfile listfile_sys [good_B] ''/Data/X.txt'' [])) =
     [''Data'' @ [bslash] @ ''X.txt'']"
    by code_simp
  have k2: "lookup_keys (snd (getFilePathsFromListfile listfile_sys [good_B] ''listfile.txt'' [])) =
     [''y.txt'', ''z.txt'']"
    by code_simp
  have k3: "lookup_keys (snd (readFile [good_B] ''/Y.txt'' [])) = [''y.txt'', ''y.txt'']"
    by code_simp
  have old: "k \<notin> set (lookup_keys [])" for k
    by simp
  have m1: "''Data'' @ [bslash] @ ''X.txt''
      \<in> set (lookup_keys (snd (getFilePathsFromBundledListfile listfile_sys [good_B] ''/Data/X.txt'' [])))"
    unfolding k1 by simp
  have m2: "''y.txt''
      \<in> set (lookup_keys (snd (getFilePathsFromListfile listfile_sys [good_B] ''listfile.txt'' [])))"
    unfolding k2 by simp
  have m3: "''y.txt'' \<in> set (lookup_keys (snd (readFile [good_B] ''/Y.txt'' [])))"
    unfolding k3 by simp
  from T m1 old have c1:
    "''Data'' @ [bslash] @ ''X.txt'' \<in> denormalize ` set (Scan listfile_sys ''/Data/X.txt'')
       \<and> slash \<notin> set (''Data'' @ [bslash] @ ''X.txt'')"
    by blast
  from T m2 old have c2:
    "\<exists>buf. ioutil_ReadFile listfile_sys [] ''listfile.txt'' = Inr buf
           \<and> ''y.txt'' \<in> denormalize ` set (Scan listfile_sys buf) \<and> slash \<notin> set ''y.txt''"
    by blast
  from T m3 old have c3:
    "''y.txt'' = denormalize (ToLower ''/Y.txt'') \<and> slash \<notin> set ''y.txt''
       \<and> ToLower ''y.txt'' = ''y.txt''"
    by blast
  from k1 k2 k3 c1 c2 c3 show ?thesis by blast
qed


text \<open>
  Two keys that are passed and are not native-form and lower-cased: on the line
  \<open>Data/X.txt\<close> the bundled-listfile filter asks for the line with its separator
  replaced and its capitals kept; on the path \<open>//x.txt\<close>, \<open>readFile\<close> asks for a key that
  still starts with a separator.
\<close>

theorem lookup_keys_not_all_native_lower:
  "lookup_keys (snd (getFilePathsFromBundledListfile sample_sys [good_B] ''Data/X.txt'' [])) =
     [''Data'' @ [bslash] @ ''X.txt'']
   \<and> \<not> native_lower (''Data'' @ [bslash] @ ''X.txt'')
   \<and> lookup_keys (snd (readFile [good_B] ''//x.txt'' [])) = [[bslash] @ ''x.txt'']
   \<and> \<not> native_lower ([bslash] @ ''x.txt'')"
  by code_simp


section \<open>The explicit list\<close>

lemma Split_not_Nil: "Split s sep \<noteq> []"
  by (induction s) (simp_all split: list.splits)

text \<open>
  Claim C8.  With a non-empty \<open>-files\<close> list, both programs take the comma-separated
  pieces of that list as the paths, and the trace is unchanged by the choice: no listfile
  is read, no embedded listing is asked for, no archive is asked whether a path exists,
  whatever \<open>-a\<close>, \<open>-l\<close> and \<open>-embedded\<close> are.  \<open>main\<close> then runs \<open>extractPaths\<close> on those
  pieces, which de-normalizes each and extracts.
\<close>

theorem explicit_list_is_exclusive:
  assumes "flag_files fl \<noteq> []"
  shows "getFilePaths_bundled os rawListfile fl archives tr =
           (Inr (Split (flag_files fl) (CHR '','')), tr)
       \<and> getFilePaths_listfile os fl archives tr =
           (Inr (Split (flag_files fl) (CHR '','')), tr)
       \<and> (openArchives os (getMpqPaths os fl) [] tr0 = (Inr archives, tr) \<longrightarrow>
            main_bundled os rawListfile fl tr0 =
              extractPaths os archives (Split (flag_files fl) (CHR '','')) (flag_lower fl) tr
          \<and> main_listfile os fl tr0 =
              extractPaths os archives (Split (flag_files fl) (CHR '','')) False tr)"
proof -
  have b: "getFilePaths_bundled os rawListfile fl archives tr =
           (Inr (Split (flag_files fl) (CHR '','')), tr)" for archives tr
    using assms by (simp add: getFilePaths_bundled_def Split_not_Nil)
  have l: "getFilePaths_listfile os fl archives tr =
           (Inr (Split (flag_files fl) (CHR '','')), tr)" for archives tr
    using assms by (simp add: getFilePaths_listfile_def Split_not_Nil)
  show ?thesis
    by (simp add: b l main_bundled_def main_listfile_def)
qed


theorem explicit_list_is_exclusive_witness:
  "flag_files sample_flags \<noteq> [] \<and> flag_a sample_flags \<and> flag_embedded sample_flags
   \<and> flag_l sample_flags = ''listfile.txt''
   \<and> openArchives listfile_sys (getMpqPaths listfile_sys sample_flags) [] [] =
        (Inr [good_B], [CallLoad ''B.mpq''])
   \<and> getFilePaths_bundled listfile_sys ''x.txt'' sample_flags [good_B] [CallLoad ''B.mpq''] =
        (Inr [''/y.txt'', ''z.txt''], [CallLoad ''B.mpq''])
   \<and> main_bundled listfile_sys ''x.txt'' sample_flags [] =
        (Exit0,
         [CallLoad ''B.mpq'',
          PrintExtracting ''y.txt'', CallFileExists ''B.mpq'' ''y.txt'',
          CallReadFile ''B.mpq'' ''y.txt'', PrintCreating ''_dump_/B/y.txt'',
          OsMkdirAll ''_dump_/B'', IoWriteFile ''_dump_/B/y.txt'' ''2'',
          PrintExtracting ''z.txt'', CallFileExists ''B.mpq'' ''z.txt'', LogNotFound ''z.txt''])"
proof -
  have h: "flag_files sample_flags \<noteq> []"
    by (simp add: sample_flags_def)
  have fl: "flag_a sample_flags \<and> flag_embedded sample_flags
      \<and> flag_l sample_flags = ''listfile.txt''"
    by (simp add: sample_flags_def)
  have o: "openArchives listfile_sys (getMpqPaths listfile_sys sample_flags) [] [] =
        (Inr [good_B], [CallLoad ''B.mpq''])"
    by (simp add: getMpqPaths_def sample_flags_def listfile_sys_def)
  have sp: "Split (flag_files sample_flags) (CHR '','') = [''/y.txt'', ''z.txt'']"
    by code_simp
  have v: "extractPaths listfile_sys [good_B] [''/y.txt'', ''z.txt''] (flag_lower sample_flags)
             [CallLoad ''B.mpq''] =
        (Exit0,
         [CallLoad ''B.mpq'',
          PrintExtracting ''y.txt'', CallFileExists ''B.mpq'' ''y.txt'',
          CallReadFile ''B.mpq'' ''y.txt'', PrintCreating ''_dump_/B/y.txt'',
          OsMkdirAll ''_dump_/B'', IoWriteFile ''_dump_/B/y.txt'' ''2'',
          PrintExtracting ''z.txt'', CallFileExists ''B.mpq'' ''z.txt'', LogNotFound ''z.txt''])"
    by code_simp
  note T = explicit_list_is_exclusive [OF h, where os = listfile_sys and rawListfile = "''x.txt''"
      and archives = "[good_B]" and tr = "[CallLoad ''B.mpq'']" and ?tr0.0 = "[]"]
  from T o have
    "getFilePaths_bundled listfile_sys ''x.txt'' sample_flags [good_B] [CallLoad ''B.mpq''] =
        (Inr [''/y.txt'', ''z.txt''], [CallLoad ''B.mpq''])
     \<and> main_bundled listfile_sys ''x.txt'' sample_flags [] =
        extractPaths listfile_sys [good_B] [''/y.txt'', ''z.txt''] (flag_lower sample_flags)
          [CallLoad ''B.mpq'']"
    unfolding sp by blast
  with h fl o v show ?thesis by (simp only:) blast
qed


section \<open>The destination path\<close>

text \<open>
  Claim C9.  When the path has been read from an archive, the destination with \<open>lower\<close>
  unset is \<open>d\<close>, the normalized join of \<open>_dump_\<close>, the archive's directory name and the
  path as it was given, with no change of case by the program; with \<open>lower\<close> set it is
  \<open>ToLower d\<close>.  That destination is the one printed, the one whose directory is
  created and the one written; a run that returns without error has written it.
\<close>

theorem extractFile_destination:
  assumes "readFile archives filePath (tr @ [PrintExtracting filePath]) = (Ok (data, name), tr1)"
    and "d = normalize_path (Join os [''_dump_'', pathutil_FileName os name, filePath])"
  shows "(\<exists>r evs. extractFile os archives filePath False tr =
                    (r, tr1 @ PrintCreating d # OsMkdirAll (Dir os d) # evs)
               \<and> set evs \<subseteq> {IoWriteFile d data}
               \<and> (r = Ok () \<longrightarrow> evs = [IoWriteFile d data]))
       \<and> (\<exists>r evs. extractFile os archives filePath True tr =
                    (r, tr1 @ PrintCreating (ToLower d) # OsMkdirAll (Dir os (ToLower d)) # evs)
               \<and> set evs \<subseteq> {IoWriteFile (ToLower d) data}
               \<and> (r = Ok () \<longrightarrow> evs = [IoWriteFile (ToLower d) data]))"
  using assms
  by (auto simp: extractFile_def Let_def split: option.splits)

theorem extractFile_destination_witness:
  "readFile [good_B] ''Y.txt'' ([] @ [PrintExtracting ''Y.txt'']) =
     (Ok (''2'', ''B.mpq''),
      [PrintExtracting ''Y.txt'', CallFileExists ''B.mpq'' ''y.txt'',
       CallReadFile ''B.mpq'' ''y.txt''])
   \<and> ''_dump_/B/Y.txt'' =
       normalize_path (Join sample_sys [''_dump_'', pathutil_FileName sample_sys ''B.mpq'', ''Y.txt''])
   \<and> ToLower ''_dump_/B/Y.txt'' = ''_dump_/b/y.txt''
   \<and> extractFile sample_sys [good_B] ''Y.txt'' False [] =
       (Ok (),
        [PrintExtracting ''Y.txt'', CallFileExists ''B.mpq'' ''y.txt'',
         CallReadFile ''B.mpq'' ''y.txt'', PrintCreating ''_dump_/B/Y.txt'',
         OsMkdirAll ''_dump_/B'', IoWriteFile ''_dump_/B/Y.txt'' ''2''])
   \<and> extractFile sample_sys [good_B] ''Y.txt'' True [] =
       (Ok (),
        [PrintExtracting ''Y.txt'', CallFileExists ''B.mpq'' ''y.txt'',
         CallReadFile ''B.mpq'' ''y.txt'', PrintCreating ''_dump_/b/y.txt'',
         OsMkdirAll ''_dump_/b'', IoWriteFile ''_dump_/b/y.txt'' ''2''])"
proof -
  let ?tr1 = "[PrintExtracting ''Y.txt'', CallFileExists ''B.mpq'' ''y.txt'',
       CallReadFile ''B.mpq'' ''y.txt'']"
  have h1: "readFile [good_B] ''Y.txt'' ([] @ [PrintExtracting ''Y.txt'']) =
     (Ok (''2'', ''B.mpq''), ?tr1)"
    by code_simp
  have h2: "''_dump_/B/Y.txt'' =
       normalize_path (Join sample_sys [''_dump_'', pathutil_FileName sample_sys ''B.mpq'', ''Y.txt''])"
    by code_simp
  have lo: "ToLower ''_dump_/B/Y.txt'' = ''_dump_/b/y.txt''"
    by code_simp
  have dirs: "Dir sample_sys ''_dump_/B/Y.txt'' = ''_dump_/B''"
    "Dir sample_sys ''_dump_/b/y.txt'' = ''_dump_/b''"
    by code_simp+
  have okF: "fst (extractFile sample_sys [good_B] ''Y.txt'' False []) = Ok ()"
    by code_simp
  have okT: "fst (extractFile sample_sys [good_B] ''Y.txt'' True []) = Ok ()"
    by code_simp
  note T = extractFile_destination [OF h1 h2, unfolded lo dirs]
  from T okF have "extractFile sample_sys [good_B] ''Y.txt'' False [] =
       (Ok (), ?tr1 @ [PrintCreating ''_dump_/B/Y.txt'',
         OsMkdirAll ''_dump_/B'', IoWriteFile ''_dump_/B/Y.txt'' ''2''])"
    by fastforce
  moreover from T okT have "extractFile sample_sys [good_B] ''Y.txt'' True [] =
       (Ok (), ?tr1 @ [PrintCreating ''_dump_/b/y.txt'',
         OsMkdirAll ''_dump_/b'', IoWriteFile ''_dump_/b/y.txt'' ''2''])"
    by fastforce
  ultimately show ?thesis
    using h1 h2 lo by simp
qed

end
